theory Spec2Isabelle
  imports Main "HOL-Library.AList"
begin

section \<open>Python values shared by the models\<close>

text \<open>
  Python \<open>str\<close> and \<open>bytes\<close> values are both modelled as character lists; a character
  stands for one code point below 256, so that decoding \<open>latin-1\<close> is the identity on
  the list.
\<close>

type_synonym bytes = string

text \<open>
  The exception classes the modelled code raises, catches or lets through.
  \<open>ASGIDecodeError\<close> carries its message.
\<close>

datatype py_exn =
    LookupError
  | KeyError
  | ValueError
  | UnicodeDecodeError
  | JSONDecodeError
  | AttributeError
  | RuntimeError
  | ASGIDecodeError string
  | NotFound
  | OtherError string

text \<open>
  \<open>except (LookupError, ValueError)\<close>: \<open>KeyError\<close> derives from \<open>LookupError\<close>,
  \<open>UnicodeDecodeError\<close> and \<open>JSONDecodeError\<close> derive from \<open>ValueError\<close>. The class
  \<open>ASGIDecodeError\<close> is declared in the package's \<open>__init__\<close> module; whether it derives
  from \<open>ValueError\<close> is the parameter \<open>sub\<close>.
\<close>

fun is_lookup_or_value :: "bool \<Rightarrow> py_exn \<Rightarrow> bool" where
  "is_lookup_or_value sub LookupError = True"
| "is_lookup_or_value sub KeyError = True"
| "is_lookup_or_value sub ValueError = True"
| "is_lookup_or_value sub UnicodeDecodeError = True"
| "is_lookup_or_value sub JSONDecodeError = True"
| "is_lookup_or_value sub (ASGIDecodeError m) = sub"
| "is_lookup_or_value sub e = False"

text \<open>
  The result of awaiting a coroutine: it returns, it raises, or it stays suspended for
  ever because the transport delivers no further event (\<open>Pending\<close>).
\<close>

datatype 'a outcome = Returned 'a | Raised py_exn | Pending

section \<open>The request facade (request.py)\<close>

subsection \<open>Connection scope and receive events\<close>

text \<open>
  A URL as \<open>yarl\<close> builds it, given by the parts \<open>URL.build\<close> is called with.
\<close>

record url_parts =
  url_scheme :: string
  url_host :: string
  url_port :: "int option"
  url_path :: string
  url_query_string :: string

text \<open>
  The scope is a dict; each key the code reads is a field, \<open>None\<close> when the key is
  absent. \<open>server\<close> is a pair of a host and an optional port. An ASGI scope has no key
  \<open>url\<close>; the field \<open>sc_url\<close> is there because \<open>Request.__getattr__\<close> reads that key when
  the property \<open>url\<close> fails with an \<open>AttributeError\<close>.
\<close>

record scope =
  sc_type :: "string option"
  sc_server :: "(string \<times> int option) option"
  sc_scheme :: "string option"
  sc_root_path :: "string option"
  sc_path :: "string option"
  sc_query_string :: "bytes option"
  sc_method :: "string option"
  sc_headers :: "(bytes \<times> bytes) list option"
  sc_url :: "url_parts option"

text \<open>
  A receive event as \<open>stream\<close> reads it: \<open>message.get('body', b'')\<close> and the truth value
  of \<open>message.get('more_body')\<close>.
\<close>

record message =
  msg_body :: "bytes option"
  more_body :: bool

text \<open>
  The facade. \<open>receive\<close> is \<open>None\<close> when no receive-operation was bound, otherwise the
  events the transport will still deliver, in order. \<open>body_cache\<close> is \<open>self._body\<close>,
  \<open>meta_json\<close> is the entry \<open>self.meta['json']\<close>. The three counters are ghost state:
  they count the calls of the receive-operation, of \<open>bytes.decode\<close> and of \<open>json.loads\<close>.
\<close>

record 'j request =
  rq_scope :: scope
  receive :: "message list option"
  body_cache :: "bytes option"
  meta_json :: "'j option"
  n_receive :: nat
  n_decode :: nat
  n_loads :: nat

definition Request :: "scope \<Rightarrow> message list option \<Rightarrow> 'j request" where
  "Request sc rcv =
     \<lparr>rq_scope = sc, receive = rcv, body_cache = None, meta_json = None,
      n_receive = 0, n_decode = 0, n_loads = 0\<rparr>"

subsection \<open>stream and body\<close>

definition chunk_of :: "message \<Rightarrow> bytes" where
  "chunk_of m = (case msg_body m of None \<Rightarrow> [] | Some b \<Rightarrow> b)"

text \<open>
  The loop of \<open>stream\<close>, on the pending events and the receive counter: every round awaits
  one event, yields its chunk and goes on while \<open>more_body\<close> is true. It returns the
  chunks yielded, the events left and the counter.
\<close>

fun stream_loop :: "message list \<Rightarrow> nat \<Rightarrow> bytes list outcome \<times> message list \<times> nat" where
  "stream_loop [] n = (Pending, [], Suc n)"
| "stream_loop (m # ms) n =
     (if more_body m then
        (case stream_loop ms (Suc n) of
           (Returned cs, q, k) \<Rightarrow> (Returned (chunk_of m # cs), q, k)
         | (Raised e, q, k) \<Rightarrow> (Raised e, q, k)
         | (Pending, q, k) \<Rightarrow> (Pending, q, k))
      else (Returned [chunk_of m], ms, Suc n))"

definition stream :: "'j request \<Rightarrow> bytes list outcome \<times> 'j request" where
  "stream self =
     (case receive self of
        None \<Rightarrow> (Raised RuntimeError, self)
      | Some q \<Rightarrow>
          (case stream_loop q (n_receive self) of
             (oc, q', k) \<Rightarrow> (oc, self\<lparr>receive := Some q', n_receive := k\<rparr>)))"

definition body :: "'j request \<Rightarrow> bytes outcome \<times> 'j request" where
  "body self =
     (case body_cache self of
        None \<Rightarrow>
          (case stream self of
             (Returned chunks, self') \<Rightarrow>
               (Returned (concat chunks), self'\<lparr>body_cache := Some (concat chunks)\<rparr>)
           | (Raised e, self') \<Rightarrow> (Raised e, self')
           | (Pending, self') \<Rightarrow> (Pending, self'))
      | Some b \<Rightarrow> (Returned b, self))"

text \<open>Calling \<open>body\<close> \<open>N\<close> times in a row, collecting the results.\<close>

fun body_times :: "nat \<Rightarrow> 'j request \<Rightarrow> bytes outcome list \<times> 'j request" where
  "body_times 0 self = ([], self)"
| "body_times (Suc n) self =
     (case body self of
        (oc, self') \<Rightarrow> (case body_times n self' of (ocs, self'') \<Rightarrow> (oc # ocs, self'')))"

subsection \<open>String helpers\<close>

text \<open>ASCII case folding, as the case-insensitive header mapping compares names.\<close>

definition lower_char :: "char \<Rightarrow> char" where
  "lower_char c =
     (case map_of (zip ''ABCDEFGHIJKLMNOPQRSTUVWXYZ'' ''abcdefghijklmnopqrstuvwxyz'') c of
        None \<Rightarrow> c
      | Some l \<Rightarrow> l)"

text \<open>
  The code points below 256 that \<open>str.isspace\<close> and the pattern \<open>\s\<close> accept:
  tab to carriage return, the four separators 28 to 31, space, 133 and 160.
\<close>

definition is_space :: "char \<Rightarrow> bool" where
  "is_space c = (of_char c \<in> {9, 10, 11, 12, 13, 28, 29, 30, 31, 32, 133, 160 :: nat})"

text \<open>\<open>s.strip()\<close> and \<open>s.strip(chars)\<close>.\<close>

definition strip_chars :: "(char \<Rightarrow> bool) \<Rightarrow> string \<Rightarrow> string" where
  "strip_chars P s = rev (dropWhile P (rev (dropWhile P s)))"

definition strip :: "string \<Rightarrow> string" where
  "strip s = strip_chars is_space s"

text \<open>\<open>s.partition(c)\<close> for a separator of one character.\<close>

definition partition_at :: "char \<Rightarrow> string \<Rightarrow> string \<times> string \<times> string" where
  "partition_at c s =
     (if c \<in> set s
      then (takeWhile (\<lambda>x. x \<noteq> c) s, [c], tl (dropWhile (\<lambda>x. x \<noteq> c) s))
      else (s, [], []))"

text \<open>\<open>s.split(c)\<close> for a separator of one character: never an empty list.\<close>

fun split_on :: "char \<Rightarrow> string \<Rightarrow> string list" where
  "split_on c [] = [[]]"
| "split_on c (x # xs) =
     (if x = c then [] # split_on c xs
      else (case split_on c xs of
              [] \<Rightarrow> [[x]]
            | w # ws \<Rightarrow> (x # w) # ws))"

subsection \<open>headers, meta, charset\<close>

definition latin1 :: "bytes \<Rightarrow> string" where
  "latin1 b = b"

text \<open>
  \<open>CIMultiDict.get\<close>: the value of the first entry whose name equals the key up to
  case, else the default.
\<close>

fun ci_get :: "(string \<times> string) list \<Rightarrow> string \<Rightarrow> string option" where
  "ci_get [] key = None"
| "ci_get ((n, v) # hs) key =
     (if map lower_char n = map lower_char key then Some v else ci_get hs key)"

definition headers :: "'j request \<Rightarrow> (string \<times> string) list" where
  "headers self =
     (case sc_headers (rq_scope self) of
        None \<Rightarrow> []
      | Some items \<Rightarrow> map (\<lambda>(n, v). (latin1 n, latin1 v)) items)"

text \<open>
  What the facade takes from outside this module: \<open>cgi.parse_header\<close>, the codec
  behind \<open>bytes.decode(charset)\<close>, \<open>json.loads\<close>, the escape decoding that
  \<open>http.cookies._unquote\<close> applies inside a quoted value, and from the package's
  \<open>__init__\<close> the constant \<open>DEFAULT_CHARSET\<close> and whether \<open>ASGIDecodeError\<close> derives
  from \<open>ValueError\<close>.
\<close>

record 'j pyenv =
  parse_header :: "string \<Rightarrow> string \<times> (string \<times> string) list"
  bytes_decode :: "string \<Rightarrow> bytes \<Rightarrow> py_exn + string"
  json_loads :: "string \<Rightarrow> py_exn + 'j"
  cookie_unescape :: "string \<Rightarrow> string"
  DEFAULT_CHARSET :: string
  decode_error_is_value_error :: bool

definition meta_opts :: "'j pyenv \<Rightarrow> 'j request \<Rightarrow> (string \<times> string) list" where
  "meta_opts env self =
     snd (parse_header env (case ci_get (headers self) ''content-type'' of
                              None \<Rightarrow> [] | Some v \<Rightarrow> v))"

definition charset :: "'j pyenv \<Rightarrow> 'j request \<Rightarrow> string" where
  "charset env self =
     (case map_of (meta_opts env self) ''charset'' of
        None \<Rightarrow> DEFAULT_CHARSET env
      | Some cs \<Rightarrow> cs)"

subsection \<open>url\<close>

text \<open>
  \<open>URL.build\<close> of \<open>yarl\<close>, as far as \<open>url\<close> depends on it. Every release refuses a port
  without a host (\<open>if port and not host\<close>); releases up to 1.4 also refuse a scheme
  without a host, which is the parameter \<open>scheme_needs_host\<close>. With \<open>encoded=True\<close> the
  parts are taken as they are.
\<close>

definition URL_build :: "bool \<Rightarrow> url_parts \<Rightarrow> py_exn + url_parts" where
  "URL_build scheme_needs_host u =
     (if scheme_needs_host \<and> url_host u = [] \<and> url_scheme u \<noteq> [] then Inl ValueError
      else if url_port u \<noteq> None \<and> url_port u \<noteq> Some 0 \<and> url_host u = [] then Inl ValueError
      else Inr u)"

text \<open>
  The property \<open>url\<close>. Without a host header and a server, \<open>host\<close> is \<open>None\<close> and
  \<open>host.partition\<close> raises \<open>AttributeError\<close>; an \<open>AttributeError\<close> from a property makes
  Python call \<open>Request.__getattr__\<close>, that is \<open>self['url']\<close>: the entry of the scope
  under \<open>url\<close>, or \<open>KeyError\<close>.
\<close>

definition url :: "bool \<Rightarrow> 'j request \<Rightarrow> py_exn + url_parts" where
  "url scheme_needs_host self =
     (let sc = rq_scope self;
          (host, port) = (case sc_server sc of
                            None \<Rightarrow> (None, None)
                          | Some (h, p) \<Rightarrow> (Some h, p));
          host = (case ci_get (headers self) ''host'' of
                    None \<Rightarrow> host
                  | Some hh \<Rightarrow> if hh = [] then host else Some hh)
      in case host of
           None \<Rightarrow> (case sc_url sc of None \<Rightarrow> Inl KeyError | Some u \<Rightarrow> Inr u)
         | Some h \<Rightarrow>
             (case partition_at CHR '':'' h of
                (host, _, _) \<Rightarrow>
                  (case sc_path sc of
                     None \<Rightarrow> Inl KeyError
                   | Some path \<Rightarrow>
                       URL_build scheme_needs_host
                         \<lparr>url_scheme = (case sc_scheme sc of None \<Rightarrow> ''http'' | Some s \<Rightarrow> s),
                          url_host = host,
                          url_port = port,
                          url_path = (case sc_root_path sc of None \<Rightarrow> [] | Some rp \<Rightarrow> rp) @ path,
                          url_query_string =
                            latin1 (case sc_query_string sc of None \<Rightarrow> [] | Some q \<Rightarrow> q)\<rparr>)))"

subsection \<open>cookies\<close>

text \<open>
  \<open>http.cookies._unquote\<close>: a value shorter than two characters or not enclosed in
  double quotes is returned as it is; otherwise the quotes are removed and the escapes
  inside are decoded.
\<close>

definition cookies_unquote :: "'j pyenv \<Rightarrow> string \<Rightarrow> string" where
  "cookies_unquote env s =
     (if length s < 2 then s
      else if hd s \<noteq> CHR 0x22 \<or> last s \<noteq> CHR 0x22 then s
      else cookie_unescape env (butlast (tl s)))"

text \<open>One round of the loop of \<open>cookies\<close>; the dict keeps insertion order.\<close>

definition cookie_step :: "'j pyenv \<Rightarrow> string \<Rightarrow> (string \<times> string) list \<Rightarrow> (string \<times> string) list" where
  "cookie_step env chunk data =
     (case partition_at CHR ''='' chunk of
        (key, _, val) \<Rightarrow> AList.update (strip key) (cookies_unquote env (strip val)) data)"

definition cookies :: "'j pyenv \<Rightarrow> 'j request \<Rightarrow> (string \<times> string) list" where
  "cookies env self =
     fold (cookie_step env)
       (split_on CHR '';'' (case ci_get (headers self) ''cookie'' of None \<Rightarrow> [] | Some v \<Rightarrow> v))
       []"

subsection \<open>process_decode, text and json\<close>

text \<open>
  The decorator. \<open>meta\<close> is \<open>None\<close> or the reader and the writer of the entry of
  \<open>self.meta\<close> under the decorator's key; \<open>sub\<close> says whether \<open>ASGIDecodeError\<close> is
  itself caught by the \<open>except\<close> clause.
\<close>

definition process_decode ::
  "bool \<Rightarrow> (('s \<Rightarrow> 'a option) \<times> ('a \<Rightarrow> 's \<Rightarrow> 's)) option \<Rightarrow> string \<Rightarrow>
   ('s \<Rightarrow> 'a outcome \<times> 's) \<Rightarrow> 's \<Rightarrow> 'a outcome \<times> 's" where
  "process_decode sub meta msg amethod self =
     (case (case meta of
              None \<Rightarrow> amethod self
            | Some (get, put) \<Rightarrow>
                (case get self of
                   None \<Rightarrow>
                     (case amethod self of
                        (Returned v, self') \<Rightarrow> (Returned v, put v self')
                      | (Raised e, self') \<Rightarrow> (Raised e, self')
                      | (Pending, self') \<Rightarrow> (Pending, self'))
                 | Some v \<Rightarrow> (Returned v, self))) of
        (Raised e, self') \<Rightarrow>
          (if is_lookup_or_value sub e then (Raised (ASGIDecodeError msg), self')
           else (Raised e, self'))
      | (Returned v, self') \<Rightarrow> (Returned v, self')
      | (Pending, self') \<Rightarrow> (Pending, self'))"

text \<open>\<open>self.charset or DEFAULT_CHARSET\<close>, as \<open>text\<close> resolves the charset.\<close>

definition charset_or_default :: "'j pyenv \<Rightarrow> 'j request \<Rightarrow> string" where
  "charset_or_default env self =
     (if charset env self = [] then DEFAULT_CHARSET env else charset env self)"

definition text_method :: "'j pyenv \<Rightarrow> 'j request \<Rightarrow> string outcome \<times> 'j request" where
  "text_method env self =
     (case body self of
        (Returned b, self') \<Rightarrow>
          (case bytes_decode env (charset_or_default env self') b of
             Inl e \<Rightarrow> (Raised e, self'\<lparr>n_decode := Suc (n_decode self')\<rparr>)
           | Inr t \<Rightarrow> (Returned t, self'\<lparr>n_decode := Suc (n_decode self')\<rparr>))
      | (Raised e, self') \<Rightarrow> (Raised e, self')
      | (Pending, self') \<Rightarrow> (Pending, self'))"

definition text' :: "'j pyenv \<Rightarrow> 'j request \<Rightarrow> string outcome \<times> 'j request" where
  "text' env =
     process_decode (decode_error_is_value_error env) None ''Invalid Encoding''
       (text_method env)"

definition json_method :: "'j pyenv \<Rightarrow> 'j request \<Rightarrow> 'j outcome \<times> 'j request" where
  "json_method env self =
     (case text' env self of
        (Returned t, self') \<Rightarrow>
          (case json_loads env t of
             Inl e \<Rightarrow> (Raised e, self'\<lparr>n_loads := Suc (n_loads self')\<rparr>)
           | Inr j \<Rightarrow> (Returned j, self'\<lparr>n_loads := Suc (n_loads self')\<rparr>))
      | (Raised e, self') \<Rightarrow> (Raised e, self')
      | (Pending, self') \<Rightarrow> (Pending, self'))"

definition json :: "'j pyenv \<Rightarrow> 'j request \<Rightarrow> 'j outcome \<times> 'j request" where
  "json env =
     process_decode (decode_error_is_value_error env)
       (Some (meta_json, \<lambda>v self. self\<lparr>meta_json := Some v\<rparr>)) ''Invalid JSON''
       (json_method env)"

text \<open>The call sequence \<open>json()\<close>, \<open>text()\<close>, \<open>json()\<close> on one facade.\<close>

definition json_text_json ::
  "'j pyenv \<Rightarrow> 'j request \<Rightarrow> ('j outcome \<times> string outcome \<times> 'j outcome) \<times> 'j request" where
  "json_text_json env self =
     (case json env self of
        (r1, s1) \<Rightarrow>
          (case text' env s1 of
             (r2, s2) \<Rightarrow>
               (case json env s2 of
                  (r3, s3) \<Rightarrow> ((r1, r2, r3), s3))))"

subsection \<open>Example inputs\<close>

text \<open>
  An environment for the examples: the content type is taken without options, every
  charset decodes as \<open>latin-1\<close>, and the only JSON document is \<open>{}\<close>.
\<close>

definition ex_env :: "string pyenv" where
  "ex_env =
     \<lparr>parse_header = (\<lambda>h. (h, [])),
      bytes_decode = (\<lambda>cs b. Inr (latin1 b)),
      json_loads = (\<lambda>t. if t = ''{}'' then Inr ''dict()'' else Inl JSONDecodeError),
      cookie_unescape = (\<lambda>s. s),
      DEFAULT_CHARSET = ''utf-8'',
      decode_error_is_value_error = True\<rparr>"

definition ex_scope :: scope where
  "ex_scope =
     \<lparr>sc_type = Some ''http'', sc_server = Some (''127.0.0.1'', Some 80),
      sc_scheme = None, sc_root_path = None, sc_path = Some ''/test'',
      sc_query_string = Some ''a=1'', sc_method = Some ''GET'',
      sc_headers = Some [(''Host'', ''example.com:8080'')], sc_url = None\<rparr>"

section \<open>The middlewares (middleware.py)\<close>

subsection \<open>BaseMiddeware.__call__\<close>

text \<open>
  A stage: the connection types it handles, the inner handler \<open>self.app\<close> and its own
  \<open>__process__\<close>. A handler takes the scope and the remaining arguments (the receive and
  send operations) and acts on a world \<open>'w\<close>, in which every effect it has is recorded.
\<close>

type_synonym ('a, 'w, 'r) handler = "scope \<Rightarrow> 'a \<Rightarrow> 'w \<Rightarrow> 'r outcome \<times> 'w"

record ('a, 'w, 'r) middleware =
  scopes :: "string set"
  app :: "('a, 'w, 'r) handler"
  process :: "('a, 'w, 'r) handler"

definition BaseMiddeware_scopes :: "string set" where
  "BaseMiddeware_scopes = {''http'', ''websockets''}"

definition LifespanMiddleware_scopes :: "string set" where
  "LifespanMiddleware_scopes = {''lifespan''}"

definition call :: "('a, 'w, 'r) middleware \<Rightarrow> ('a, 'w, 'r) handler" where
  "call self sc args w =
     (case sc_type sc of
        None \<Rightarrow> (Raised KeyError, w)
      | Some t \<Rightarrow>
          if t \<in> scopes self then process self sc args w
          else app self sc args w)"

subsection \<open>LifespanMiddleware\<close>










subsection \<open>RouterMiddleware\<close>

text \<open>
  The callbacks a route can be given, by what Python makes of them: a function defined
  with \<open>async def\<close>, an async generator function, an object whose \<open>__call__\<close> is defined
  with \<open>async def\<close>, a plain function, an object that cannot be called.
  \<open>inspect.iscoroutinefunction\<close> accepts the first kind only.
\<close>

datatype callable_kind =
    CoroutineFunction
  | AsyncGeneratorFunction
  | AsyncCallObject
  | PlainFunction
  | NotCallable

record route_callback =
  rc_name :: string
  rc_kind :: callable_kind



text \<open>
  The middleware with its router. The route table is the list of what was registered:
  the arguments of \<open>route\<close> and the callback, in order of registration.
  \<open>rm_raise_not_found\<close> is the flag the constructor hands to \<open>Router\<close>.
\<close>

type_synonym 'r route_table = "('r \<times> route_callback) list"

record 'r router_middleware =
  rm_app :: route_callback
  rm_routes :: "'r route_table"
  rm_raise_not_found :: bool



definition router_route :: "'r \<Rightarrow> route_callback \<Rightarrow> 'r route_table \<Rightarrow> 'r route_table" where
  "router_route args cb table = table @ [(args, cb)]"

text \<open>
  \<open>RouterMiddleware.__init__\<close>, with the default handler already bound: the entries of
  \<open>routes\<close> go to the router as they are.
\<close>

definition RouterMiddleware ::
  "route_callback \<Rightarrow> ('r \<times> route_callback) list \<Rightarrow> bool \<Rightarrow> 'r router_middleware" where
  "RouterMiddleware app0 routes raise_not_found =
     \<lparr>rm_app = app0,
      rm_routes = fold (\<lambda>(path, cb) table. router_route path cb table) routes [],
      rm_raise_not_found = raise_not_found\<rparr>"



subsection \<open>Example inputs for the middlewares\<close>

text \<open>
  A lifespan stage whose inner handler and own logic each leave a mark in the world, a
  list of strings.
\<close>

definition ex_stage :: "(unit, string list, unit) middleware" where
  "ex_stage =
     \<lparr>scopes = LifespanMiddleware_scopes,
      app = (\<lambda>sc args w. (Returned (), w @ [''app''])),
      process = (\<lambda>sc args w. (Returned (), w @ [''process'']))\<rparr>"









section \<open>Header options (utils.py)\<close>

subsection \<open>Regular expressions as \<open>re.match\<close> runs them\<close>

text \<open>
  The pattern constructs that \<open>OPTION_HEADER_PIECE_RE\<close> uses: a character class, the
  empty pattern, sequence, alternation (left branch first), the greedy \<open>?\<close> and \<open>*\<close>, the
  lazy \<open>*?\<close> and a numbered capture group.
\<close>

type_synonym caps = "nat \<rightharpoonup> string"

datatype rx =
    Chr "char \<Rightarrow> bool"
  | Eps
  | Cat rx rx
  | Alt rx rx
  | Opt rx
  | Star rx
  | LazyStar rx
  | Grp nat rx

text \<open>
  The matcher is a backtracking machine over the patterns still to be matched. Beside
  patterns this list holds two kinds of marks: \<open>Chk n\<close> lets a repetition go round again
  only if the round consumed input (fewer than \<open>n\<close> characters are left), and
  \<open>EndGrp g s0\<close> closes group \<open>g\<close>, which was opened when the input was \<open>s0\<close>.
\<close>

datatype item = Rx rx | Chk nat | EndGrp nat string

text \<open>The measure for the termination of the machine.\<close>

fun rsize :: "rx \<Rightarrow> nat" where
  "rsize (Chr P) = 1"
| "rsize Eps = 1"
| "rsize (Cat a b) = Suc (rsize a + rsize b)"
| "rsize (Alt a b) = Suc (rsize a + rsize b)"
| "rsize (Opt r) = Suc (rsize r)"
| "rsize (Star r) = Suc (rsize r)"
| "rsize (LazyStar r) = Suc (rsize r)"
| "rsize (Grp g r) = Suc (Suc (rsize r))"

fun weight :: "nat \<Rightarrow> item list \<Rightarrow> nat" where
  "weight n [] = 0"
| "weight n (Rx r # k) = rsize r + weight n k"
| "weight n (Chk m # k) = (if n < m then Suc (weight n k) else 0)"
| "weight n (EndGrp g s0 # k) = Suc (weight n k)"

text \<open>
  \<open>run k s c\<close> matches the items \<open>k\<close> against a prefix of \<open>s\<close> with the groups \<open>c\<close> set so
  far; it returns the input left and the groups of the first match in backtracking
  order, or \<open>None\<close> when there is none.
\<close>

function run :: "item list \<Rightarrow> string \<Rightarrow> caps \<Rightarrow> (string \<times> caps) option" where
  "run [] s c = Some (s, c)"
| "run (Rx (Chr P) # k) s c =
     (case s of [] \<Rightarrow> None | x # xs \<Rightarrow> if P x then run k xs c else None)"
| "run (Rx Eps # k) s c = run k s c"
| "run (Rx (Cat r1 r2) # k) s c = run (Rx r1 # Rx r2 # k) s c"
| "run (Rx (Alt r1 r2) # k) s c =
     (case run (Rx r1 # k) s c of Some m \<Rightarrow> Some m | None \<Rightarrow> run (Rx r2 # k) s c)"
| "run (Rx (Opt r) # k) s c =
     (case run (Rx r # k) s c of Some m \<Rightarrow> Some m | None \<Rightarrow> run k s c)"
| "run (Rx (Star r) # k) s c =
     (case run (Rx r # Chk (length s) # Rx (Star r) # k) s c of
        Some m \<Rightarrow> Some m
      | None \<Rightarrow> run k s c)"
| "run (Rx (LazyStar r) # k) s c =
     (case run k s c of
        Some m \<Rightarrow> Some m
      | None \<Rightarrow> run (Rx r # Chk (length s) # Rx (LazyStar r) # k) s c)"
| "run (Rx (Grp g r) # k) s c = run (Rx r # EndGrp g s # k) s c"
| "run (Chk n # k) s c = (if length s < n then run k s c else None)"
| "run (EndGrp g s0 # k) s c = run k s (c(g \<mapsto> take (length s0 - length s) s0))"
  by pat_completeness auto
termination
  by (relation "inv_image (less_than <*lex*> less_than)
        (\<lambda>(k, s, c). (length s, weight (length s) k))") auto

definition re_match :: "rx \<Rightarrow> string \<Rightarrow> (string \<times> caps) option" where
  "re_match r s = run [Rx r] s Map.empty"

text \<open>Shorthands: one character, \<open>+\<close>, \<open>+?\<close>, a sequence, \<open>\s*\<close>.\<close>

definition lit :: "char \<Rightarrow> rx" where
  "lit a = Chr (\<lambda>c. c = a)"

definition plus :: "rx \<Rightarrow> rx" where
  "plus r = Cat r (Star r)"

definition lazy_plus :: "rx \<Rightarrow> rx" where
  "lazy_plus r = Cat r (LazyStar r)"

definition seq :: "rx list \<Rightarrow> rx" where
  "seq rs = foldr Cat rs Eps"

definition ws :: rx where
  "ws = Star (Chr is_space)"

text \<open>The quoted string of the pattern: a quote, then characters other than quote and
  backslash, with escaped characters in between, then a quote.\<close>

definition quoted_string :: rx where
  "quoted_string =
     seq [lit CHR 0x22,
          Star (Chr (\<lambda>c. c \<noteq> CHR 0x22 \<and> c \<noteq> CHR 0x5C)),
          Star (seq [lit CHR 0x5C, Chr (\<lambda>c. c \<noteq> CHR 0x0A),
                     Star (Chr (\<lambda>c. c \<noteq> CHR 0x22 \<and> c \<noteq> CHR 0x5C))]),
          lit CHR 0x22]"

text \<open>
  The pattern of one option. Groups: 1 \<open>key\<close>, 2 \<open>count\<close>, 3 \<open>encoding\<close>, 4 \<open>language\<close>,
  5 \<open>value\<close>.
\<close>

definition OPTION_HEADER_PIECE_RE :: rx where
  "OPTION_HEADER_PIECE_RE =
     seq [ws, Opt (lit CHR '',''), ws,
          Grp 1 (Alt quoted_string
                     (plus (Chr (\<lambda>c. \<not> is_space c \<and> c \<notin> set '';,=*'')))),
          Opt (seq [lit CHR ''*'', Grp 2 (plus (Chr (\<lambda>c. c \<in> set ''0123456789'')))]),
          ws,
          Opt (seq [Alt (seq [lit CHR ''*'', ws, lit CHR ''='', ws,
                              Opt (seq [Grp 3 (lazy_plus (Chr (\<lambda>c. \<not> is_space c))),
                                        lit CHR 0x27,
                                        Grp 4 (LazyStar (Chr (\<lambda>c. \<not> is_space c))),
                                        lit CHR 0x27])])
                        (seq [lit CHR ''='', ws]),
                    Opt (Grp 5 (Alt quoted_string (plus (Chr (\<lambda>c. c \<notin> set '';,'')))))]),
          ws, Opt (lit CHR '';'')]"

subsection \<open>What a successful match guarantees\<close>

text \<open>
  \<open>consumes r\<close>: every match of \<open>r\<close> takes at least one character. \<open>sets_group g r\<close>:
  every match of \<open>r\<close> sets group \<open>g\<close>. Both are read off the pattern, and lifted to the
  items of the machine.
\<close>

fun consumes :: "rx \<Rightarrow> bool" where
  "consumes (Chr P) = True"
| "consumes Eps = False"
| "consumes (Cat a b) = (consumes a \<or> consumes b)"
| "consumes (Alt a b) = (consumes a \<and> consumes b)"
| "consumes (Opt r) = False"
| "consumes (Star r) = False"
| "consumes (LazyStar r) = False"
| "consumes (Grp g r) = consumes r"

fun sets_group :: "nat \<Rightarrow> rx \<Rightarrow> bool" where
  "sets_group g (Chr P) = False"
| "sets_group g Eps = False"
| "sets_group g (Cat a b) = (sets_group g a \<or> sets_group g b)"
| "sets_group g (Alt a b) = (sets_group g a \<and> sets_group g b)"
| "sets_group g (Opt r) = False"
| "sets_group g (Star r) = False"
| "sets_group g (LazyStar r) = False"
| "sets_group g (Grp h r) = (h = g \<or> sets_group g r)"

fun stack_consumes :: "item list \<Rightarrow> bool" where
  "stack_consumes [] = False"
| "stack_consumes (Rx r # k) = (consumes r \<or> stack_consumes k)"
| "stack_consumes (Chk n # k) = stack_consumes k"
| "stack_consumes (EndGrp g s0 # k) = stack_consumes k"

fun stack_sets :: "nat \<Rightarrow> item list \<Rightarrow> bool" where
  "stack_sets g [] = False"
| "stack_sets g (Rx r # k) = (sets_group g r \<or> stack_sets g k)"
| "stack_sets g (Chk n # k) = stack_sets g k"
| "stack_sets g (EndGrp h s0 # k) = (h = g \<or> stack_sets g k)"

definition progress :: "nat \<Rightarrow> item list \<Rightarrow> string \<Rightarrow> caps \<Rightarrow> string \<times> caps \<Rightarrow> bool" where
  "progress g k s c res =
     (length (fst res) \<le> length s
      \<and> (stack_consumes k \<longrightarrow> length (fst res) < length s)
      \<and> dom c \<subseteq> dom (snd res)
      \<and> (stack_sets g k \<longrightarrow> g \<in> dom (snd res)))"

subsection \<open>parse_options_header\<close>

text \<open>\<open>s.replace(old, new)\<close> for a non-empty \<open>old\<close>.\<close>

function replace :: "string \<Rightarrow> string \<Rightarrow> string \<Rightarrow> string" where
  "replace old new [] = []"
| "replace old new (x # xs) =
     (if old \<noteq> [] \<and> take (length old) (x # xs) = old
      then new @ replace old new (drop (length old) (x # xs))
      else x # replace old new xs)"
  by pat_completeness auto
termination
  by (relation "measure (\<lambda>(old, new, s). length s)") auto

text \<open>\<open>value.strip('" ').replace("\\\\", "\\").replace('\\"', '"')\<close>\<close>

definition unquote_value :: "string \<Rightarrow> string" where
  "unquote_value v =
     replace [CHR 0x5C, CHR 0x22] [CHR 0x22]
       (replace [CHR 0x5C, CHR 0x5C] [CHR 0x5C]
          (strip_chars (\<lambda>c. c = CHR 0x22 \<or> c = CHR '' '') v))"

text \<open>
  The body of the loop after a match, on the groups \<open>option\<close>, \<open>count\<close>, \<open>encoding\<close> and
  \<open>value\<close>. \<open>dec v enc\<close> stands for \<open>unquote_to_bytes(v).decode(enc)\<close>. A match without a
  value reaches \<open>value.strip\<close> with \<open>None\<close>.
\<close>

definition option_step ::
  "(string \<Rightarrow> string \<Rightarrow> py_exn + string) \<Rightarrow> string \<Rightarrow> string option \<Rightarrow> string option \<Rightarrow>
   string option \<Rightarrow> (string \<times> string) list \<Rightarrow> py_exn + (string \<times> string) list" where
  "option_step dec option count encoding val options =
     (case val of
        None \<Rightarrow> Inl AttributeError
      | Some v \<Rightarrow>
          (case (case encoding of None \<Rightarrow> Inr v | Some enc \<Rightarrow> dec v enc) of
             Inl e \<Rightarrow> Inl e
           | Inr v1 \<Rightarrow>
               Inr (AList.update option
                      (unquote_value
                         (if count \<noteq> None \<and> count \<noteq> Some []
                          then (case map_of options option of None \<Rightarrow> [] | Some old \<Rightarrow> old) @ v1
                          else v1))
                      options)))"

text \<open>
  The loop \<open>while rest\<close>. The result is \<open>None\<close> when the loop does not end, which it
  would not if a match consumed nothing; the key group is part of every match.
\<close>

function options_loop ::
  "(string \<Rightarrow> string \<Rightarrow> py_exn + string) \<Rightarrow> string \<Rightarrow> (string \<times> string) list \<Rightarrow>
   (py_exn + (string \<times> string) list) option" where
  "options_loop dec rest options =
     (if rest = [] then Some (Inr options)
      else
        (case re_match OPTION_HEADER_PIECE_RE rest of
           None \<Rightarrow> Some (Inr options)
         | Some (rest', groups) \<Rightarrow>
             (case option_step dec (case groups 1 of None \<Rightarrow> [] | Some k \<Rightarrow> k)
                     (groups 2) (groups 3) (groups 5) options of
                Inl e \<Rightarrow> Some (Inl e)
              | Inr options' \<Rightarrow>
                  if length rest' < length rest then options_loop dec rest' options'
                  else None)))"
  by pat_completeness auto
termination
  by (relation "measure (\<lambda>(dec, rest, options). length rest)") auto

definition parse_options_header ::
  "(string \<Rightarrow> string \<Rightarrow> py_exn + string) \<Rightarrow> string \<Rightarrow>
   (py_exn + string \<times> (string \<times> string) list) option" where
  "parse_options_header dec v =
     (if v = [] then Some (Inr ([], []))
      else if CHR '';'' \<notin> set v then Some (Inr (v, []))
      else
        (case partition_at CHR '';'' v of
           (ctype, sep, rest) \<Rightarrow>
             (case options_loop dec rest [] of
                None \<Rightarrow> None
              | Some (Inl e) \<Rightarrow> Some (Inl e)
              | Some (Inr options) \<Rightarrow> Some (Inr (ctype, options)))))"


section \<open>Properties of body\<close>

lemma stream_loop_complete:
  "\<forall>m\<in>set pre. more_body m \<Longrightarrow> \<not> more_body fin \<Longrightarrow>
   stream_loop (pre @ fin # rest) n =
     (Returned (map chunk_of (pre @ [fin])), rest, n + length pre + 1)"
  by (induction pre arbitrary: n) simp_all

lemma body_first:
  assumes "\<forall>m\<in>set pre. more_body m" and "\<not> more_body fin"
    and "receive self = Some (pre @ fin # rest)" and "body_cache self = None"
  shows "body self =
    (Returned (concat (map chunk_of (pre @ [fin]))),
     self\<lparr>receive := Some rest, n_receive := n_receive self + length pre + 1,
          body_cache := Some (concat (map chunk_of (pre @ [fin])))\<rparr>)"
  using assms by (simp add: body_def stream_def stream_loop_complete)

lemma body_cached: "body_cache self = Some b \<Longrightarrow> body self = (Returned b, self)"
  by (simp add: body_def)

lemma body_times_cached:
  "body_cache self = Some b \<Longrightarrow> body_times n self = (replicate n (Returned b), self)"
  by (induction n) (simp_all add: body_cached)

text \<open>
  C2: on a fresh facade bound to a receive-operation whose events reach a final chunk
  (every event of \<open>pre\<close> announces more, \<open>fin\<close> does not), \<open>N \<ge> 1\<close> calls of \<open>body\<close> all
  return the concatenation of the chunks in arrival order; the receive-operation is
  called once per streamed event, \<open>length pre + 1\<close> times in all whatever \<open>N\<close> is, and
  the events after the final chunk are left unread.
\<close>

theorem body_idempotent:
  assumes "\<forall>m\<in>set pre. more_body m" and "\<not> more_body fin" and "1 \<le> N"
  shows "body_times N (Request sc (Some (pre @ fin # rest))) =
           (replicate N (Returned (concat (map chunk_of (pre @ [fin])))),
            (Request sc (Some rest))
              \<lparr>n_receive := length pre + 1,
               body_cache := Some (concat (map chunk_of (pre @ [fin])))\<rparr>)"
proof -
  obtain k where N: "N = Suc k"
    using assms(3) by (cases N) auto
  define r :: "'a request" where "r = Request sc (Some (pre @ fin # rest))"
  define b where "b = concat (map chunk_of (pre @ [fin]))"
  define r' where "r' = r\<lparr>receive := Some rest, n_receive := n_receive r + length pre + 1,
    body_cache := Some b\<rparr>"
  have "receive r = Some (pre @ fin # rest)" and "body_cache r = None"
    by (simp_all add: r_def Request_def)
  with assms(1,2) have first: "body r = (Returned b, r')"
    unfolding r'_def b_def by (rule body_first)
  have "body_cache r' = Some b"
    by (simp add: r'_def)
  then have later: "body_times k r' = (replicate k (Returned b), r')"
    by (rule body_times_cached)
  have all: "body_times N r = (replicate N (Returned b), r')"
    unfolding N by (simp add: first later)
  have "r' = (Request sc (Some rest))\<lparr>n_receive := length pre + 1, body_cache := Some b\<rparr>"
    by (simp add: r'_def r_def Request_def)
  with all show ?thesis
    unfolding r_def b_def by simp
qed

theorem body_idempotent_witness:
  "body_times 3 (Request \<lparr>sc_type = Some ''http'', sc_server = None, sc_scheme = None,
        sc_root_path = None, sc_path = Some ''/'', sc_query_string = None,
        sc_method = Some ''GET'', sc_headers = None, sc_url = None\<rparr>
      (Some [\<lparr>msg_body = Some ''ab'', more_body = True\<rparr>,
             \<lparr>msg_body = None, more_body = True\<rparr>,
             \<lparr>msg_body = Some ''c'', more_body = False\<rparr>,
             \<lparr>msg_body = Some ''zz'', more_body = False\<rparr>])) =
     ([Returned ''abc'', Returned ''abc'', Returned ''abc''],
      (Request \<lparr>sc_type = Some ''http'', sc_server = None, sc_scheme = None,
        sc_root_path = None, sc_path = Some ''/'', sc_query_string = None,
        sc_method = Some ''GET'', sc_headers = None, sc_url = None\<rparr>
        (Some [\<lparr>msg_body = Some ''zz'', more_body = False\<rparr>]))
        \<lparr>n_receive := 3, body_cache := Some ''abc''\<rparr>)"
  using body_idempotent [of "[\<lparr>msg_body = Some ''ab'', more_body = True\<rparr>,
             \<lparr>msg_body = None, more_body = True\<rparr>]"
      "\<lparr>msg_body = Some ''c'', more_body = False\<rparr>" 3
      "\<lparr>sc_type = Some ''http'', sc_server = None, sc_scheme = None,
        sc_root_path = None, sc_path = Some ''/'', sc_query_string = None,
        sc_method = Some ''GET'', sc_headers = None, sc_url = None\<rparr>"
      "[\<lparr>msg_body = Some ''zz'', more_body = False\<rparr>]"]
  by (simp add: chunk_of_def eval_nat_numeral)

section \<open>Properties of text and json\<close>

lemma charset_scope:
  "rq_scope s1 = rq_scope s2 \<Longrightarrow> charset_or_default env s1 = charset_or_default env s2"
  by (simp add: charset_or_default_def charset_def meta_opts_def headers_def)

lemma text_of_body:
  assumes "body self = (Returned b, s')" and "rq_scope s' = rq_scope self"
    and "bytes_decode env (charset_or_default env self) b = Inr t"
  shows "text' env self = (Returned t, s'\<lparr>n_decode := Suc (n_decode s')\<rparr>)"
proof -
  have "charset_or_default env s' = charset_or_default env self"
    using assms(2) by (rule charset_scope)
  then show ?thesis
    using assms(1,3) by (simp add: text'_def process_decode_def text_method_def)
qed

lemma text_cached:
  assumes "body_cache self = Some b"
    and "bytes_decode env (charset_or_default env self) b = Inr t"
  shows "text' env self = (Returned t, self\<lparr>n_decode := Suc (n_decode self)\<rparr>)"
  by (rule text_of_body [OF body_cached [OF assms(1)] refl assms(2)])

lemma text_first:
  assumes "\<forall>m\<in>set pre. more_body m" and "\<not> more_body fin"
    and "receive self = Some (pre @ fin # rest)" and "body_cache self = None"
    and "bytes_decode env (charset_or_default env self)
           (concat (map chunk_of (pre @ [fin]))) = Inr t"
  shows "text' env self =
    (Returned t,
     self\<lparr>receive := Some rest, n_receive := n_receive self + length pre + 1,
          body_cache := Some (concat (map chunk_of (pre @ [fin]))),
          n_decode := Suc (n_decode self)\<rparr>)"
proof -
  define s' where "s' = self\<lparr>receive := Some rest, n_receive := n_receive self + length pre + 1,
          body_cache := Some (concat (map chunk_of (pre @ [fin])))\<rparr>"
  have b: "body self = (Returned (concat (map chunk_of (pre @ [fin]))), s')"
    unfolding s'_def using assms(1-4) by (rule body_first)
  have sc: "rq_scope s' = rq_scope self"
    by (simp add: s'_def)
  have "text' env self = (Returned t, s'\<lparr>n_decode := Suc (n_decode s')\<rparr>)"
    using b sc assms(5) by (rule text_of_body)
  then show ?thesis
    by (simp add: s'_def)
qed

lemma json_cached:
  "meta_json self = Some j \<Longrightarrow> json env self = (Returned j, self)"
  by (simp add: json_def process_decode_def)

lemma json_first:
  assumes "meta_json self = None" and "text' env self = (Returned t, s1)"
    and "json_loads env t = Inr j"
  shows "json env self = (Returned j, s1\<lparr>n_loads := Suc (n_loads s1), meta_json := Some j\<rparr>)"
  using assms by (simp add: json_def process_decode_def json_method_def)

text \<open>
  C1 (amended): on a fresh facade whose body is streamed completely, decodes in the
  resolved charset and parses as JSON, the calls \<open>json()\<close>, \<open>text()\<close>, \<open>json()\<close> return
  the parsed value, the text and the parsed value again. \<open>json.loads\<close> runs exactly once
  and the stream is read once, but the body is decoded twice: once inside the first
  \<open>json()\<close> and once more by \<open>text()\<close>, which is decorated without a cache key.
\<close>

theorem json_text_json_counts:
  assumes "\<forall>m\<in>set pre. more_body m" and "\<not> more_body fin"
    and "bytes_decode env
           (charset_or_default env (Request sc None))
           (concat (map chunk_of (pre @ [fin]))) = Inr t"
    and "json_loads env t = Inr j"
  shows "json_text_json env (Request sc (Some (pre @ fin # rest))) =
           ((Returned j, Returned t, Returned j),
            (Request sc (Some rest))
              \<lparr>body_cache := Some (concat (map chunk_of (pre @ [fin]))),
               meta_json := Some j,
               n_receive := length pre + 1, n_decode := 2, n_loads := 1\<rparr>)"
proof -
  define r0 :: "'a request" where "r0 = Request sc (Some (pre @ fin # rest))"
  define b where "b = concat (map chunk_of (pre @ [fin]))"
  define r1 where "r1 = r0\<lparr>receive := Some rest, n_receive := n_receive r0 + length pre + 1,
          body_cache := Some b, n_decode := Suc (n_decode r0)\<rparr>"
  define r2 where "r2 = r1\<lparr>n_loads := Suc (n_loads r1), meta_json := Some j\<rparr>"
  define r3 where "r3 = r2\<lparr>n_decode := Suc (n_decode r2)\<rparr>"
  have cs0: "charset_or_default env r0 = charset_or_default env (Request sc None)"
    by (rule charset_scope) (simp add: r0_def Request_def)
  have cs2: "charset_or_default env r2 = charset_or_default env (Request sc None)"
    by (rule charset_scope) (simp add: r2_def r1_def r0_def Request_def)
  have d0: "bytes_decode env (charset_or_default env r0) (concat (map chunk_of (pre @ [fin]))) = Inr t"
    using assms(3) by (simp only: cs0)
  have d2: "bytes_decode env (charset_or_default env r2) b = Inr t"
    using assms(3) by (simp only: cs2 b_def)
  have rcv0: "receive r0 = Some (pre @ fin # rest)" and bc0: "body_cache r0 = None"
    and mj0: "meta_json r0 = None"
    by (simp_all add: r0_def Request_def)
  have t0: "text' env r0 = (Returned t, r1)"
    unfolding r1_def b_def by (rule text_first [OF assms(1,2) rcv0 bc0 d0])
  have j0: "json env r0 = (Returned j, r2)"
    unfolding r2_def by (rule json_first [OF mj0 t0 assms(4)])
  have bc2: "body_cache r2 = Some b"
    by (simp add: r2_def r1_def)
  have t2: "text' env r2 = (Returned t, r3)"
    unfolding r3_def by (rule text_cached [OF bc2 d2])
  have j3: "json env r3 = (Returned j, r3)"
    by (rule json_cached) (simp add: r3_def r2_def)
  have all: "json_text_json env r0 = ((Returned j, Returned t, Returned j), r3)"
    by (simp add: json_text_json_def j0 t2 j3)
  have "r3 = (Request sc (Some rest))
              \<lparr>body_cache := Some b, meta_json := Some j,
               n_receive := length pre + 1, n_decode := 2, n_loads := 1\<rparr>"
    by (simp add: r3_def r2_def r1_def r0_def Request_def)
  with all show ?thesis
    unfolding r0_def b_def by (simp only:)
qed

theorem json_text_json_counts_witness:
  "json_text_json ex_env
     (Request ex_scope (Some [\<lparr>msg_body = Some ''{'', more_body = True\<rparr>,
                              \<lparr>msg_body = Some ''}'', more_body = False\<rparr>])) =
     ((Returned ''dict()'', Returned ''{}'', Returned ''dict()''),
      (Request ex_scope (Some []))
        \<lparr>body_cache := Some ''{}'', meta_json := Some ''dict()'',
         n_receive := 2, n_decode := 2, n_loads := 1\<rparr>)"
  using json_text_json_counts [of "[\<lparr>msg_body = Some ''{'', more_body = True\<rparr>]"
      "\<lparr>msg_body = Some ''}'', more_body = False\<rparr>" ex_env ex_scope "''{}''" "''dict()''" "[]"]
  by (simp add: ex_env_def chunk_of_def latin1_def)

text \<open>
  C1 as stated fails: for the one-chunk body \<open>{}\<close> the sequence \<open>json()\<close>, \<open>text()\<close>,
  \<open>json()\<close> decodes the body twice, not once.
\<close>

theorem json_text_json_decodes_twice:
  "n_decode (snd (json_text_json ex_env
     (Request ex_scope (Some [\<lparr>msg_body = Some ''{}'', more_body = False\<rparr>])))) = 2"
  by (simp add: json_text_json_def json_def text'_def process_decode_def json_method_def
      text_method_def body_def stream_def Request_def ex_env_def chunk_of_def latin1_def
      charset_or_default_def charset_def meta_opts_def)

section \<open>Properties of cookies\<close>

text \<open>
  C9: when the headers hold no \<open>cookie\<close> entry, \<open>cookies\<close> is not the empty mapping but
  the mapping with the single key \<open>''\<close> bound to \<open>''\<close>: the empty fallback string is
  still split into one empty chunk, which is inserted.
\<close>

theorem cookies_without_header:
  "ci_get (headers self) ''cookie'' = None \<Longrightarrow> cookies env self = [([], [])]"
  by (simp add: cookies_def cookie_step_def partition_at_def strip_def strip_chars_def
      cookies_unquote_def)

theorem cookies_without_header_witness:
  "ci_get (headers (Request ex_scope None :: string request)) ''cookie'' = None
   \<and> cookies ex_env (Request ex_scope None) = [([], [])]"
  using cookies_without_header [of "Request ex_scope None" ex_env]
  by (simp add: headers_def Request_def ex_scope_def latin1_def lower_char_def)

section \<open>Properties of url\<close>

lemma partition_at_fst: "partition_at c s = (a, b, d) \<Longrightarrow> a = takeWhile (\<lambda>x. x \<noteq> c) s"
proof (cases "c \<in> set s")
  case True
  assume "partition_at c s = (a, b, d)"
  with True show ?thesis by (simp add: partition_at_def)
next
  case False
  then have tw: "takeWhile (\<lambda>x. x \<noteq> c) s = s"
    by (simp add: takeWhile_eq_all_conv) blast
  assume "partition_at c s = (a, b, d)"
  with False have "a = s"
    by (simp add: partition_at_def)
  with tw show ?thesis by (simp only:)
qed

lemma url_with_host:
  assumes "sc_path (rq_scope self) = Some path"
    and "(case ci_get (headers self) ''host'' of
            None \<Rightarrow> map_option fst (sc_server (rq_scope self))
          | Some hh \<Rightarrow> if hh = [] then map_option fst (sc_server (rq_scope self)) else Some hh) = Some h"
  shows "url v self =
     URL_build v
       \<lparr>url_scheme = (case sc_scheme (rq_scope self) of None \<Rightarrow> ''http'' | Some s \<Rightarrow> s),
        url_host = takeWhile (\<lambda>x. x \<noteq> CHR '':'') h,
        url_port = (case sc_server (rq_scope self) of None \<Rightarrow> None | Some (sh, p) \<Rightarrow> p),
        url_path = (case sc_root_path (rq_scope self) of None \<Rightarrow> [] | Some rp \<Rightarrow> rp) @ path,
        url_query_string = (case sc_query_string (rq_scope self) of None \<Rightarrow> [] | Some q \<Rightarrow> q)\<rparr>"
proof -
  obtain a b d where pa: "partition_at CHR '':'' h = (a, b, d)"
    by (cases "partition_at CHR '':'' h") auto
  then have a: "a = takeWhile (\<lambda>x. x \<noteq> CHR '':'') h"
    by (rule partition_at_fst)
  show ?thesis
  proof (cases "sc_server (rq_scope self)")
    case None
    with assms pa a show ?thesis
      by (simp add: url_def latin1_def split: option.splits if_splits)
  next
    case (Some srv)
    obtain sh sp where "srv = (sh, sp)" by (cases srv)
    with Some assms pa a show ?thesis
      by (simp add: url_def latin1_def split: option.splits if_splits)
  qed
qed

lemma URL_build_host: "url_host u \<noteq> [] \<Longrightarrow> URL_build v u = Inr u"
  by (simp add: URL_build_def)

lemma URL_build_port_without_host:
  "url_host u = [] \<Longrightarrow> url_port u \<noteq> None \<Longrightarrow> url_port u \<noteq> Some 0 \<Longrightarrow>
   URL_build v u = Inl ValueError"
  by (simp add: URL_build_def)

text \<open>
  C4 (amended): take a scope with a path, and as its host the \<open>host\<close> header when that
  is present and not empty, else the transport's host. When the part of the host before
  the first colon is not empty, \<open>url\<close> is the URL built from the scheme (default
  \<open>http\<close>), that part as host, the root path followed by the path, and the query bytes
  decoded as \<open>latin-1\<close>. The port is always the transport's port: a port written in the
  \<open>host\<close> header is cut off and never used. When the part before the colon is empty and
  the transport gives a port other than 0, \<open>URL.build\<close> raises \<open>ValueError\<close>.
\<close>

theorem url_port_from_server:
  assumes "sc_path sc = Some path"
  shows "(ci_get (headers (Request sc rcv :: 'j request)) ''host'' = Some hh
            \<and> takeWhile (\<lambda>x. x \<noteq> CHR '':'') hh \<noteq> [] \<longrightarrow>
            url v (Request sc rcv :: 'j request) =
              Inr \<lparr>url_scheme = (case sc_scheme sc of None \<Rightarrow> ''http'' | Some s \<Rightarrow> s),
                   url_host = takeWhile (\<lambda>x. x \<noteq> CHR '':'') hh,
                   url_port = (case sc_server sc of None \<Rightarrow> None | Some (h, p) \<Rightarrow> p),
                   url_path = (case sc_root_path sc of None \<Rightarrow> [] | Some rp \<Rightarrow> rp) @ path,
                   url_query_string = (case sc_query_string sc of None \<Rightarrow> [] | Some q \<Rightarrow> q)\<rparr>)
       \<and> (ci_get (headers (Request sc rcv :: 'j request)) ''host'' \<in> {None, Some []}
            \<and> sc_server sc = Some (sh, sp)
            \<and> takeWhile (\<lambda>x. x \<noteq> CHR '':'') sh \<noteq> [] \<longrightarrow>
            url v (Request sc rcv :: 'j request) =
              Inr \<lparr>url_scheme = (case sc_scheme sc of None \<Rightarrow> ''http'' | Some s \<Rightarrow> s),
                   url_host = takeWhile (\<lambda>x. x \<noteq> CHR '':'') sh,
                   url_port = sp,
                   url_path = (case sc_root_path sc of None \<Rightarrow> [] | Some rp \<Rightarrow> rp) @ path,
                   url_query_string = (case sc_query_string sc of None \<Rightarrow> [] | Some q \<Rightarrow> q)\<rparr>)
       \<and> (ci_get (headers (Request sc rcv :: 'j request)) ''host'' = Some hh \<and> hh \<noteq> []
            \<and> takeWhile (\<lambda>x. x \<noteq> CHR '':'') hh = []
            \<and> sc_server sc = Some (sh, sp) \<and> sp \<noteq> None \<and> sp \<noteq> Some 0 \<longrightarrow>
            url v (Request sc rcv :: 'j request) = Inl ValueError)
       \<and> (ci_get (headers (Request sc rcv :: 'j request)) ''host'' \<in> {None, Some []}
            \<and> sc_server sc = Some (sh, sp)
            \<and> takeWhile (\<lambda>x. x \<noteq> CHR '':'') sh = [] \<and> sp \<noteq> None \<and> sp \<noteq> Some 0 \<longrightarrow>
            url v (Request sc rcv :: 'j request) = Inl ValueError)"
proof -
  define self :: "'j request" where "self = Request sc rcv"
  have sc: "rq_scope self = sc"
    by (simp add: self_def Request_def)
  have p: "sc_path (rq_scope self) = Some path"
    using assms by (simp add: sc)
  have A: "url v self =
              Inr \<lparr>url_scheme = (case sc_scheme sc of None \<Rightarrow> ''http'' | Some s \<Rightarrow> s),
                   url_host = takeWhile (\<lambda>x. x \<noteq> CHR '':'') hh,
                   url_port = (case sc_server sc of None \<Rightarrow> None | Some (h, p) \<Rightarrow> p),
                   url_path = (case sc_root_path sc of None \<Rightarrow> [] | Some rp \<Rightarrow> rp) @ path,
                   url_query_string = (case sc_query_string sc of None \<Rightarrow> [] | Some q \<Rightarrow> q)\<rparr>"
    if "ci_get (headers self) ''host'' = Some hh" and "takeWhile (\<lambda>x. x \<noteq> CHR '':'') hh \<noteq> []"
  proof -
    from that(2) have "hh \<noteq> []" by auto
    with that(1) have "url v self = URL_build v
       \<lparr>url_scheme = (case sc_scheme sc of None \<Rightarrow> ''http'' | Some s \<Rightarrow> s),
        url_host = takeWhile (\<lambda>x. x \<noteq> CHR '':'') hh,
        url_port = (case sc_server sc of None \<Rightarrow> None | Some (sh, p) \<Rightarrow> p),
        url_path = (case sc_root_path sc of None \<Rightarrow> [] | Some rp \<Rightarrow> rp) @ path,
        url_query_string = (case sc_query_string sc of None \<Rightarrow> [] | Some q \<Rightarrow> q)\<rparr>"
      using url_with_host [OF p, of hh v] by (simp add: sc)
    with that(2) show ?thesis
      by (simp add: URL_build_host)
  qed
  have B: "url v self =
              Inr \<lparr>url_scheme = (case sc_scheme sc of None \<Rightarrow> ''http'' | Some s \<Rightarrow> s),
                   url_host = takeWhile (\<lambda>x. x \<noteq> CHR '':'') sh,
                   url_port = sp,
                   url_path = (case sc_root_path sc of None \<Rightarrow> [] | Some rp \<Rightarrow> rp) @ path,
                   url_query_string = (case sc_query_string sc of None \<Rightarrow> [] | Some q \<Rightarrow> q)\<rparr>"
    if "ci_get (headers self) ''host'' \<in> {None, Some []}" and "sc_server sc = Some (sh, sp)"
      and "takeWhile (\<lambda>x. x \<noteq> CHR '':'') sh \<noteq> []"
  proof -
    from that(1,2) have "url v self = URL_build v
       \<lparr>url_scheme = (case sc_scheme sc of None \<Rightarrow> ''http'' | Some s \<Rightarrow> s),
        url_host = takeWhile (\<lambda>x. x \<noteq> CHR '':'') sh,
        url_port = sp,
        url_path = (case sc_root_path sc of None \<Rightarrow> [] | Some rp \<Rightarrow> rp) @ path,
        url_query_string = (case sc_query_string sc of None \<Rightarrow> [] | Some q \<Rightarrow> q)\<rparr>"
      using url_with_host [OF p, of sh v] by (auto simp: sc)
    with that(3) show ?thesis
      by (simp add: URL_build_host)
  qed
  have C: "url v self = Inl ValueError"
    if "ci_get (headers self) ''host'' = Some hh" and "hh \<noteq> []"
      and "takeWhile (\<lambda>x. x \<noteq> CHR '':'') hh = []"
      and "sc_server sc = Some (sh, sp)" and "sp \<noteq> None" and "sp \<noteq> Some 0"
  proof -
    from that(1,2,4) have "url v self = URL_build v
       \<lparr>url_scheme = (case sc_scheme sc of None \<Rightarrow> ''http'' | Some s \<Rightarrow> s),
        url_host = takeWhile (\<lambda>x. x \<noteq> CHR '':'') hh,
        url_port = sp,
        url_path = (case sc_root_path sc of None \<Rightarrow> [] | Some rp \<Rightarrow> rp) @ path,
        url_query_string = (case sc_query_string sc of None \<Rightarrow> [] | Some q \<Rightarrow> q)\<rparr>"
      using url_with_host [OF p, of hh v] by (simp add: sc)
    with that(3,5,6) show ?thesis
      by (simp add: URL_build_port_without_host)
  qed
  have D: "url v self = Inl ValueError"
    if "ci_get (headers self) ''host'' \<in> {None, Some []}" and "sc_server sc = Some (sh, sp)"
      and "takeWhile (\<lambda>x. x \<noteq> CHR '':'') sh = []" and "sp \<noteq> None" and "sp \<noteq> Some 0"
  proof -
    from that(1,2) have "url v self = URL_build v
       \<lparr>url_scheme = (case sc_scheme sc of None \<Rightarrow> ''http'' | Some s \<Rightarrow> s),
        url_host = takeWhile (\<lambda>x. x \<noteq> CHR '':'') sh,
        url_port = sp,
        url_path = (case sc_root_path sc of None \<Rightarrow> [] | Some rp \<Rightarrow> rp) @ path,
        url_query_string = (case sc_query_string sc of None \<Rightarrow> [] | Some q \<Rightarrow> q)\<rparr>"
      using url_with_host [OF p, of sh v] by (auto simp: sc)
    with that(3,4,5) show ?thesis
      by (simp add: URL_build_port_without_host)
  qed
  from A B C D show ?thesis
    unfolding self_def by blast
qed

theorem url_port_from_server_witness:
  "url True (Request ex_scope None :: unit request) =
     Inr \<lparr>url_scheme = ''http'', url_host = ''example.com'', url_port = Some 80,
          url_path = ''/test'', url_query_string = ''a=1''\<rparr>
   \<and> url True (Request (ex_scope\<lparr>sc_headers := None\<rparr>) None :: unit request) =
     Inr \<lparr>url_scheme = ''http'', url_host = ''127.0.0.1'', url_port = Some 80,
          url_path = ''/test'', url_query_string = ''a=1''\<rparr>
   \<and> url False (Request (ex_scope\<lparr>sc_headers := Some [(''host'', '':8080'')]\<rparr>) None
          :: unit request) = Inl ValueError
   \<and> url False (Request (ex_scope\<lparr>sc_headers := None, sc_server := Some (''::1'', Some 8000)\<rparr>)
          None :: unit request) = Inl ValueError"
  using url_port_from_server [of ex_scope "''/test''" None "''example.com:8080''" True
      "''127.0.0.1''" "Some 80", where ?'j = unit]
    url_port_from_server [of "ex_scope\<lparr>sc_headers := None\<rparr>" "''/test''" None
      "''example.com:8080''" True "''127.0.0.1''" "Some 80", where ?'j = unit]
    url_port_from_server [of "ex_scope\<lparr>sc_headers := Some [(''host'', '':8080'')]\<rparr>" "''/test''"
      None "'':8080''" False "''127.0.0.1''" "Some 80", where ?'j = unit]
    url_port_from_server [of "ex_scope\<lparr>sc_headers := None, sc_server := Some (''::1'', Some 8000)\<rparr>"
      "''/test''" None "''x''" False "''::1''" "Some 8000", where ?'j = unit]
  by (simp add: ex_scope_def headers_def Request_def latin1_def lower_char_def)

text \<open>
  C4 as stated fails: with the header \<open>Host: example.com:8080\<close> and the transport
  address \<open>127.0.0.1:80\<close> the port given to \<open>URL.build\<close> is 80, not the header's 8080.
\<close>

theorem url_ignores_header_port:
  "url True (Request \<lparr>sc_type = Some ''http'', sc_server = Some (''127.0.0.1'', Some 80),
      sc_scheme = None, sc_root_path = None, sc_path = Some ''/test'',
      sc_query_string = Some ''a=1'', sc_method = Some ''GET'',
      sc_headers = Some [(''Host'', ''example.com:8080'')], sc_url = None\<rparr> None :: unit request) =
     Inr \<lparr>url_scheme = ''http'', url_host = ''example.com'', url_port = Some 80,
          url_path = ''/test'', url_query_string = ''a=1''\<rparr>"
  by (simp add: url_def URL_build_def headers_def Request_def latin1_def lower_char_def
      partition_at_def)

section \<open>Properties of BaseMiddeware.__call__\<close>

text \<open>
  C7: a stage called with a connection whose type is not among its \<open>scopes\<close> behaves as
  its inner handler called with the same scope and the same further arguments: the
  result and the world afterwards are those of the inner handler, and the stage's own
  \<open>__process__\<close> is not run.
\<close>

theorem call_passthrough:
  "sc_type sc = Some t \<Longrightarrow> t \<notin> scopes self \<Longrightarrow> call self sc args w = app self sc args w"
  by (simp add: call_def)

theorem call_passthrough_witness:
  "sc_type ex_scope = Some ''http'' \<and> ''http'' \<notin> scopes ex_stage
   \<and> call ex_stage ex_scope () [] = (Returned (), [''app''])"
  using call_passthrough [of ex_scope "''http''" ex_stage "()" "[]"]
  by (simp add: ex_scope_def ex_stage_def LifespanMiddleware_scopes_def)

section \<open>Properties of the router middleware\<close>




text \<open>
  The constructor registers the entries of \<open>routes\<close> without looking at the callbacks.
\<close>

lemma RouterMiddleware_routes: "rm_routes (RouterMiddleware app0 routes flag) = routes"
proof -
  have "fold (\<lambda>(path, cb) table. router_route path cb table) routes acc = acc @ routes"
    for acc :: "('a \<times> route_callback) list"
    by (induction routes arbitrary: acc) (auto simp: router_route_def)
  then show ?thesis
    by (simp add: RouterMiddleware_def)
qed




section \<open>Properties of the lifespan loop\<close>









section \<open>Properties of the pattern matcher\<close>

lemma progress_weaken:
  assumes "progress g k2 s c res"
    and "stack_consumes k1 \<Longrightarrow> stack_consumes k2"
    and "stack_sets g k1 \<Longrightarrow> stack_sets g k2"
  shows "progress g k1 s c res"
  using assms unfolding progress_def by blast

lemma run_progress: "run k s c = Some res \<Longrightarrow> progress g k s c res"
proof (induction k s c rule: run.induct)
  case (1 s c)
  then show ?case by (auto simp: progress_def)
next
  case (2 P k s c)
  show ?case
  proof (cases s)
    case Nil
    with "2.prems" show ?thesis by simp
  next
    case (Cons x xs)
    with "2.prems" have px: "P x" and r: "run k xs c = Some res"
      by (simp_all split: if_splits)
    from "2.IH" [OF Cons px r] show ?thesis
      unfolding progress_def Cons by simp
  qed
next
  case (3 k s c)
  from "3.prems" have "run k s c = Some res" by simp
  from "3.IH" [OF this] show ?case
    by (rule progress_weaken) simp_all
next
  case (4 r1 r2 k s c)
  from "4.prems" have "run (Rx r1 # Rx r2 # k) s c = Some res" by simp
  from "4.IH" [OF this] show ?case
    by (rule progress_weaken) auto
next
  case (5 r1 r2 k s c)
  show ?case
  proof (cases "run (Rx r1 # k) s c")
    case None
    with "5.prems" have "run (Rx r2 # k) s c = Some res" by simp
    from "5.IH"(2) [OF None this] show ?thesis
      by (rule progress_weaken) auto
  next
    case (Some m)
    with "5.prems" have "run (Rx r1 # k) s c = Some res" by simp
    from "5.IH"(1) [OF this] show ?thesis
      by (rule progress_weaken) auto
  qed
next
  case (6 r k s c)
  show ?case
  proof (cases "run (Rx r # k) s c")
    case None
    with "6.prems" have "run k s c = Some res" by simp
    from "6.IH"(2) [OF None this] show ?thesis
      by (rule progress_weaken) auto
  next
    case (Some m)
    with "6.prems" have "run (Rx r # k) s c = Some res" by simp
    from "6.IH"(1) [OF this] show ?thesis
      by (rule progress_weaken) auto
  qed
next
  case (7 r k s c)
  show ?case
  proof (cases "run (Rx r # Chk (length s) # Rx (Star r) # k) s c")
    case None
    with "7.prems" have "run k s c = Some res" by simp
    from "7.IH"(2) [OF None this] show ?thesis
      by (rule progress_weaken) auto
  next
    case (Some m)
    with "7.prems" have "run (Rx r # Chk (length s) # Rx (Star r) # k) s c = Some res" by simp
    from "7.IH"(1) [OF this] show ?thesis
      by (rule progress_weaken) auto
  qed
next
  case (8 r k s c)
  show ?case
  proof (cases "run k s c")
    case None
    with "8.prems" have "run (Rx r # Chk (length s) # Rx (LazyStar r) # k) s c = Some res" by simp
    from "8.IH"(2) [OF None this] show ?thesis
      by (rule progress_weaken) auto
  next
    case (Some m)
    with "8.prems" have "run k s c = Some res" by simp
    from "8.IH"(1) [OF this] show ?thesis
      by (rule progress_weaken) auto
  qed
next
  case (9 g' r k s c)
  from "9.prems" have "run (Rx r # EndGrp g' s # k) s c = Some res" by simp
  from "9.IH" [OF this] show ?case
    by (rule progress_weaken) auto
next
  case (10 n k s c)
  from "10.prems" have lt: "length s < n" and r: "run k s c = Some res"
    by (simp_all split: if_splits)
  from "10.IH" [OF lt r] show ?case
    by (rule progress_weaken) auto
next
  case (11 g' s0 k s c)
  from "11.prems" have "run k s (c(g' \<mapsto> take (length s0 - length s) s0)) = Some res" by simp
  from "11.IH" [OF this] show ?case
    unfolding progress_def by auto
qed

lemma re_match_progress:
  assumes "re_match OPTION_HEADER_PIECE_RE s = Some (s', groups)"
  shows "length s' < length s" and "groups 1 \<noteq> None"
proof -
  have c: "stack_consumes [Rx OPTION_HEADER_PIECE_RE]"
    and g: "stack_sets 1 [Rx OPTION_HEADER_PIECE_RE]"
    by (simp_all add: OPTION_HEADER_PIECE_RE_def seq_def plus_def lazy_plus_def lit_def
        quoted_string_def ws_def)
  from assms have r: "run [Rx OPTION_HEADER_PIECE_RE] s Map.empty = Some (s', groups)"
    by (simp add: re_match_def)
  from run_progress [OF r, of 1] c g show "length s' < length s" and "groups 1 \<noteq> None"
    by (auto simp: progress_def)
qed

section \<open>Properties of parse_options_header\<close>

text \<open>The loop of \<open>parse_options_header\<close> always ends: the function returns or raises.\<close>

lemma options_loop_returns: "options_loop dec rest options \<noteq> None"
proof (induction dec rest options rule: options_loop.induct)
  case (1 dec rest options)
  show ?case
  proof (cases "rest = []")
    case True
    then show ?thesis by simp
  next
    case False
    show ?thesis
    proof (cases "re_match OPTION_HEADER_PIECE_RE rest")
      case None
      with False show ?thesis by simp
    next
      case (Some m)
      obtain rest' groups where m: "m = (rest', groups)" by (cases m)
      have lt: "length rest' < length rest"
        using re_match_progress(1) Some m by blast
      show ?thesis
      proof (cases "option_step dec (case groups 1 of None \<Rightarrow> [] | Some k \<Rightarrow> k)
                     (groups 2) (groups 3) (groups 5) options")
        case (Inl e)
        with False Some m show ?thesis by simp
      next
        case (Inr options')
        have "options_loop dec rest' options' \<noteq> None"
          using "1.IH" [OF False Some m [symmetric] Inr lt] .
        with False Some m Inr lt show ?thesis by simp
      qed
    qed
  qed
qed

lemma parse_options_header_returns: "parse_options_header dec v \<noteq> None"
proof (cases "v = [] \<or> CHR '';'' \<notin> set v")
  case True
  then show ?thesis by (auto simp: parse_options_header_def)
next
  case False
  obtain ctype sep rest where p: "partition_at CHR '';'' v = (ctype, sep, rest)"
    by (cases "partition_at CHR '';'' v") auto
  obtain r where r: "options_loop dec rest [] = Some r"
    using options_loop_returns [of dec rest "[]"] by auto
  from False p r show ?thesis
    by (cases r) (simp_all add: parse_options_header_def)
qed




















end
